theory Spec2Isabelle
  imports
    Main
    "HOL-Library.Multiset"
    "HOL-Library.Char_ord"
    "HOL-Library.List_Lexorder"
begin

section \<open>The Ceph cluster orchestration of pkg/operator/ceph/cluster/cluster.go\<close>

text \<open>
  The file embeds the functions of \<^verbatim>\<open>cluster.go\<close>: the two orchestration flags and
  the loop of \<^verbatim>\<open>createInstance\<close> that drives them, the version gate
  (\<^verbatim>\<open>validateCephVersion\<close>, \<^verbatim>\<open>diffImageSpecAndClusterRunningVersion\<close>), one
  orchestration pass (\<^verbatim>\<open>doOrchestration\<close>) and the comparison of two cluster
  specifications (\<^verbatim>\<open>clusterChanged\<close>).

  Conventions. A Go pointer that may be nil is an \<open>option\<close>. A Go \<^verbatim>\<open>error\<close> result is
  an \<open>error option\<close> (\<open>None\<close> is nil). Everything a function does to the outside (the
  Kubernetes API, the Ceph command line, the daemons it starts, its child controllers)
  is a call of a collaborator: the collaborators are the fields of the record \<open>world\<close>,
  and every function returns the list of the calls it made, in order, next to its result
  and the updated cluster. Log lines are not modelled.
\<close>

subsection \<open>Data\<close>

text \<open>
  Modelled from the spec: \<^verbatim>\<open>cephver.CephVersion\<close> (package
  \<^verbatim>\<open>pkg/operator/ceph/version\<close>) is not among the sources. The spec's SoftwareVersion
  is major.minor.patch with optional build metadata, under a strict total order.
\<close>

record CephVersion =
  Major :: int
  Minor :: int
  Extra :: int
  Build :: int

text \<open>
  The types of package \<^verbatim>\<open>cephv1\<close> and \<^verbatim>\<open>rookv1alpha2\<close> are declared outside the
  sources. The records below have the fields that \<^verbatim>\<open>cluster.go\<close> reads; a value that
  the file only hands on (placement, annotations, network, resources, ...) is a string
  standing for the value.
\<close>

record CephVersionSpec =
  Image :: string
  AllowUnsupported :: bool

record Node =
  Name :: string
  NodeConfig :: string

text \<open>\<open>Nodes\<close> is a Go slice: \<open>None\<close> is the nil slice, \<open>Some []\<close> an empty one.\<close>

record StorageScopeSpec =
  Nodes :: "Node list option"
  Selection :: string

record ClusterSpec =
  CephVersion :: CephVersionSpec
  Storage :: StorageScopeSpec
  Annotations :: string
  Placement :: string
  Network :: string
  Resources :: string
  DataDirHostPath :: string
  Dashboard :: string
  Monitoring :: string
  RBDMirroring :: string

text \<open>
  Modelled from the spec: \<^verbatim>\<open>cephconfig.ClusterInfo\<close> is not among the sources. The
  spec's ClusterIdentity record holds the cluster's unique id, the admin credential and
  the detected running version.
\<close>

record ClusterInfo =
  FSID :: string
  AdminSecret :: string
  RunningVersion :: CephVersion

text \<open>\<^verbatim>\<open>client.CephDaemonsVersions\<close>: only the \<^verbatim>\<open>Overall\<close> map is read. A Go map from
  version string to count is the list of its entries (the keys are distinct; the order
  is the order in which \<^verbatim>\<open>range\<close> visits them).\<close>

record CephDaemonsVersions =
  Overall :: "(string \<times> int) list"

datatype error =
    External string
  | K8sAlreadyExists string
  | MinimumVersionNotMet CephVersion
  | AllowUnsupportedRequired CephVersion
  | NotHealthy string
  | NoOverallSection
  | DowngradeNotSupported CephVersion CephVersion
  | OverrideConfigMapFailed string error
  | MonStartFailed error
  | IdentityNotEstablished "ClusterInfo option"
  | MgrStartFailed error
  | OsdStartFailed error
  | RbdMirrorStartFailed error

text \<open>The arguments of \<^verbatim>\<open>mgr.New\<close>, \<^verbatim>\<open>osd.New\<close> and \<^verbatim>\<open>rbd.New\<close>, in the order of
  the source (the context argument is left out).\<close>

datatype role_config =
    MgrNew "ClusterInfo option" string string CephVersionSpec string string string string
      string string string string bool
  | OsdNew "ClusterInfo option" string string CephVersionSpec StorageScopeSpec string
      string string string string string bool
  | RbdNew "ClusterInfo option" string string CephVersionSpec string string string string
      string string string bool

datatype call =
    CallLoadClusterInfo string
  | CallWriteConnectionConfig "ClusterInfo option"
  | CallGetAllCephDaemonVersions string
  | CallIsCephHealthy string
  | CallConfigMapCreate string string
  | CallMonsStart "ClusterInfo option" string CephVersion ClusterSpec bool
  | CallStart role_config
  | CallParentClusterChanged string ClusterSpec "ClusterInfo option" bool

text \<open>The collaborators. Each is a function of the arguments it is called with.
  \<open>LoadClusterInfo\<close> returns the cluster info and the error of the source's four results;
  \<open>CmpDiff\<close> is \<^verbatim>\<open>cmp.Diff\<close> with the quantity comparer, \<open>None\<close> when it panics.\<close>

record world =
  Minimum :: CephVersion
  Supported :: "CephVersion \<Rightarrow> bool"
  ExtractCephVersion :: "string \<Rightarrow> error + CephVersion"
  IsInitialized :: "ClusterInfo option \<Rightarrow> bool"
  LoadClusterInfo :: "string \<Rightarrow> ClusterInfo option \<times> error option"
  WriteConnectionConfig :: "ClusterInfo option \<Rightarrow> error option"
  GetAllCephDaemonVersions :: "string \<Rightarrow> error + CephDaemonsVersions"
  IsCephHealthy :: "string \<Rightarrow> bool"
  ConfigMapCreate :: "string \<Rightarrow> string \<Rightarrow> error option"
  MonsStart :: "ClusterInfo option \<Rightarrow> string \<Rightarrow> CephVersion \<Rightarrow> ClusterSpec \<Rightarrow> bool
                  \<Rightarrow> error + ClusterInfo option"
  RoleStart :: "role_config \<Rightarrow> error option"
  GetMgrPlacement :: "string \<Rightarrow> string"
  GetMgrAnnotations :: "string \<Rightarrow> string"
  GetMgrResources :: "string \<Rightarrow> string"
  GetOSDPlacement :: "string \<Rightarrow> string"
  GetOSDAnnotations :: "string \<Rightarrow> string"
  GetOSDResources :: "string \<Rightarrow> string"
  GetRBDMirrorPlacement :: "string \<Rightarrow> string"
  GetRBDMirrorAnnotations :: "string \<Rightarrow> string"
  GetRBDMirrorResources :: "string \<Rightarrow> string"
  CmpDiff :: "ClusterSpec \<Rightarrow> ClusterSpec \<Rightarrow> string option"

text \<open>The struct \<^verbatim>\<open>cluster\<close>. \<open>Spec\<close> is the specification that the pointer
  \<^verbatim>\<open>c.Spec\<close> leads to when it is read; \<open>childControllers\<close> are the names of the
  registered children. The context, the mon cluster handle, the stop channel and the
  mutex have no field: the mutex makes each of the three flag operations one step.\<close>

record cluster =
  Info :: "ClusterInfo option"
  Namespace :: string
  Spec :: ClusterSpec
  crdName :: string
  initCompleted :: bool
  ownerRef :: string
  orchestrationRunning :: bool
  orchestrationNeeded :: bool
  childControllers :: "string list"
  isUpgrade :: bool

subsection \<open>The orchestration flags\<close>

definition setOrchestrationNeeded :: "cluster \<Rightarrow> cluster" where
  "setOrchestrationNeeded c = c\<lparr>orchestrationNeeded := True\<rparr>"

definition unsetOrchestrationStatus :: "cluster \<Rightarrow> cluster" where
  "unsetOrchestrationStatus c = c\<lparr>orchestrationRunning := False\<rparr>"

definition checkSetOrchestrationStatus :: "cluster \<Rightarrow> bool \<times> cluster" where
  "checkSetOrchestrationStatus c =
     (if orchestrationNeeded c = True \<and> orchestrationRunning c = False
      then (True, c\<lparr>orchestrationNeeded := False, orchestrationRunning := True\<rparr>)
      else (False, c))"

subsection \<open>Version comparison\<close>

text \<open>
  Modelled from the spec: the comparisons of package \<^verbatim>\<open>cephver\<close> are not among the
  sources. The spec gives SoftwareVersion a strict total order with identical, superior
  and inferior comparisons and a minimum-version check: the order is the lexicographic
  one on major, minor, patch and build.
\<close>

definition IsSuperior :: "CephVersion \<Rightarrow> CephVersion \<Rightarrow> bool" where
  "IsSuperior a b =
     (Major a > Major b \<or>
      (Major a = Major b \<and>
        (Minor a > Minor b \<or>
         (Minor a = Minor b \<and>
           (Extra a > Extra b \<or> (Extra a = Extra b \<and> Build a > Build b))))))"

definition IsInferior :: "CephVersion \<Rightarrow> CephVersion \<Rightarrow> bool" where
  "IsInferior a b =
     (Major a < Major b \<or>
      (Major a = Major b \<and>
        (Minor a < Minor b \<or>
         (Minor a = Minor b \<and>
           (Extra a < Extra b \<or> (Extra a = Extra b \<and> Build a < Build b))))))"

definition IsIdentical :: "CephVersion \<Rightarrow> CephVersion \<Rightarrow> bool" where
  "IsIdentical a b =
     (Major a = Major b \<and> Minor a = Minor b \<and> Extra a = Extra b \<and> Build a = Build b)"

definition IsAtLeast :: "CephVersion \<Rightarrow> CephVersion \<Rightarrow> bool" where
  "IsAtLeast v other = (IsSuperior v other \<or> IsIdentical v other)"

subsection \<open>The version gate\<close>

text \<open>The body of the loop \<^verbatim>\<open>for v := range runningVersions.Overall\<close>: each of the
  three tests returns; an entry that passes none of them lets the loop go on.\<close>

fun rangeOverall :: "world \<Rightarrow> CephVersion \<Rightarrow> (string \<times> int) list \<Rightarrow> bool \<times> error option" where
  "rangeOverall w imageSpecVersion [] = (False, None)"
| "rangeOverall w imageSpecVersion ((v, n) # rest) =
     (case ExtractCephVersion w v of
        Inl err \<Rightarrow> (False, Some err)
      | Inr clusterRunningVersion \<Rightarrow>
          if IsIdentical clusterRunningVersion imageSpecVersion then (False, None)
          else if IsSuperior imageSpecVersion clusterRunningVersion then (True, None)
          else if IsInferior imageSpecVersion clusterRunningVersion
          then (True, Some (DowngradeNotSupported imageSpecVersion clusterRunningVersion))
          else rangeOverall w imageSpecVersion rest)"

definition diffImageSpecAndClusterRunningVersion ::
  "world \<Rightarrow> CephVersion \<Rightarrow> CephDaemonsVersions \<Rightarrow> bool \<times> error option" where
  "diffImageSpecAndClusterRunningVersion w imageSpecVersion runningVersions =
     (let numberOfCephVersions = length (Overall runningVersions) in
      if numberOfCephVersions = 0 then (False, Some NoOverallSection)
      else if numberOfCephVersions > 1 then (True, None)
      else if numberOfCephVersions = 1
      then rangeOverall w imageSpecVersion (Overall runningVersions)
      else (False, None))"

definition validateCephVersion ::
  "world \<Rightarrow> CephVersion \<Rightarrow> cluster \<Rightarrow> error option \<times> cluster \<times> call list" where
  "validateCephVersion w version c =
     (if \<not> IsAtLeast version (Minimum w) then (Some (MinimumVersionNotMet (Minimum w)), c, [])
      else if \<not> Supported w version \<and> \<not> AllowUnsupported (CephVersion (Spec c))
      then (Some (AllowUnsupportedRequired version), c, [])
      else
        (let (clusterInfo, err) = LoadClusterInfo w (Namespace c);
             t = CallLoadClusterInfo (Namespace c) #
                 (if err = None then [CallWriteConnectionConfig clusterInfo] else [])
         in if \<not> IsInitialized w clusterInfo then (None, c, t)
            else
              (let t1 = t @ [CallGetAllCephDaemonVersions (Namespace c)] in
               case GetAllCephDaemonVersions w (Namespace c) of
                 Inl err \<Rightarrow> (None, c, t1)
               | Inr runningVersions \<Rightarrow>
                   (case diffImageSpecAndClusterRunningVersion w version runningVersions of
                      (differentImages, Some err) \<Rightarrow> (None, c, t1)
                    | (differentImages, None) \<Rightarrow>
                        if differentImages then
                          (let t2 = t1 @ [CallIsCephHealthy (Namespace c)] in
                           if \<not> IsCephHealthy w (Namespace c)
                           then (Some (NotHealthy (Namespace c)), c, t2)
                           else (None, c\<lparr>isUpgrade := True\<rparr>, t2))
                        else (None, c, t1)))))"

subsection \<open>One orchestration pass\<close>

definition IsAlreadyExists :: "error \<Rightarrow> bool" where
  "IsAlreadyExists e = (case e of K8sAlreadyExists _ \<Rightarrow> True | _ \<Rightarrow> False)"

text \<open>\<open>spec\<close> is the copy that \<^verbatim>\<open>createInstance\<close> made; \<open>Spec c\<close> is what
  \<^verbatim>\<open>c.Spec\<close> leads to.\<close>

definition doOrchestration ::
  "world \<Rightarrow> string \<Rightarrow> CephVersion \<Rightarrow> ClusterSpec \<Rightarrow> cluster
     \<Rightarrow> error option \<times> cluster \<times> call list" where
  "doOrchestration w rookImage cephVersion spec c =
     (let t0 = [CallConfigMapCreate (Namespace c) (ownerRef c)] in
      case (case ConfigMapCreate w (Namespace c) (ownerRef c) of
              None \<Rightarrow> None
            | Some err \<Rightarrow> if \<not> IsAlreadyExists err then Some err else None) of
        Some err \<Rightarrow> (Some (OverrideConfigMapFailed (Namespace c) err), c, t0)
      | None \<Rightarrow>
     (let t1 = t0 @ [CallMonsStart (Info c) rookImage cephVersion (Spec c) (isUpgrade c)] in
      case MonsStart w (Info c) rookImage cephVersion (Spec c) (isUpgrade c) of
        Inl err \<Rightarrow> (Some (MonStartFailed err), c, t1)
      | Inr clusterInfo \<Rightarrow>
     (let c = c\<lparr>Info := clusterInfo\<rparr> in
      if \<not> IsInitialized w (Info c) then (Some (IdentityNotEstablished (Info c)), c, t1)
      else
     (let mgrs = MgrNew (Info c) (Namespace c) rookImage (CephVersion spec)
                   (GetMgrPlacement w (Placement spec))
                   (GetMgrAnnotations w (Annotations (Spec c)))
                   (Network spec) (Dashboard spec) (Monitoring spec)
                   (GetMgrResources w (Resources spec)) (ownerRef c)
                   (DataDirHostPath (Spec c)) (isUpgrade c);
          t2 = t1 @ [CallStart mgrs] in
      case RoleStart w mgrs of
        Some err \<Rightarrow> (Some (MgrStartFailed err), c, t2)
      | None \<Rightarrow>
     (let osds = OsdNew (Info c) (Namespace c) rookImage (CephVersion spec)
                   (Storage spec) (DataDirHostPath spec)
                   (GetOSDPlacement w (Placement spec))
                   (GetOSDAnnotations w (Annotations spec)) (Network spec)
                   (GetOSDResources w (Resources spec)) (ownerRef c) (isUpgrade c);
          t3 = t2 @ [CallStart osds] in
      case RoleStart w osds of
        Some err \<Rightarrow> (Some (OsdStartFailed err), c, t3)
      | None \<Rightarrow>
     (let rbdmirror = RbdNew (Info c) (Namespace c) rookImage (CephVersion spec)
                        (GetRBDMirrorPlacement w (Placement spec))
                        (GetRBDMirrorAnnotations w (Annotations spec))
                        (Network spec) (RBDMirroring spec)
                        (GetRBDMirrorResources w (Resources spec)) (ownerRef c)
                        (DataDirHostPath (Spec c)) (isUpgrade c);
          t4 = t3 @ [CallStart rbdmirror] in
      case RoleStart w rbdmirror of
        Some err \<Rightarrow> (Some (RbdMirrorStartFailed err), c, t4)
      | None \<Rightarrow>
          (None, c\<lparr>initCompleted := True\<rparr>,
           t4 @ map (\<lambda>child. CallParentClusterChanged child (Spec c) clusterInfo (isUpgrade c))
                  (childControllers c))))))))"

subsection \<open>The driving loop\<close>

text \<open>
  \<^verbatim>\<open>createInstance\<close> runs beside other goroutines that call
  \<^verbatim>\<open>setOrchestrationNeeded\<close>. \<open>arrivals\<close> lists, pass by pass, how many such calls
  land between the claim of a pass and the check that follows its release (none once
  the list is used up); \<open>worlds k\<close> are the collaborators as they answer during pass
  \<open>k\<close>. The loop keeps the error of the last pass; \<open>passes\<close> collects the calls of each
  pass that ran.
\<close>

function createInstance_loop ::
  "(nat \<Rightarrow> world) \<Rightarrow> string \<Rightarrow> CephVersion \<Rightarrow> nat list \<Rightarrow> cluster \<Rightarrow> error option
     \<Rightarrow> call list list \<Rightarrow> error option \<times> cluster \<times> call list list" where
  "createInstance_loop worlds rookImage cephVersion arrivals c err passes =
     (if fst (checkSetOrchestrationStatus c) = True then
        (let c1 = snd (checkSetOrchestrationStatus c);
             spec = Spec c1;
             r = doOrchestration (worlds (length passes)) rookImage cephVersion spec c1;
             c2 = (setOrchestrationNeeded ^^ (case arrivals of [] \<Rightarrow> 0 | n # _ \<Rightarrow> n))
                    (fst (snd r));
             c3 = unsetOrchestrationStatus c2
         in createInstance_loop worlds rookImage cephVersion (tl arrivals) c3 (fst r)
              (passes @ [snd (snd r)]))
      else (err, snd (checkSetOrchestrationStatus c), passes))"
  by pat_completeness auto

text \<open>A pass leaves both flags alone, and any number of requests leaves \<open>needed\<close> set:
  the two facts behind the termination of the loop.\<close>

lemma doOrchestration_flags:
  "orchestrationNeeded (fst (snd (doOrchestration w img v spec c))) = orchestrationNeeded c \<and>
   orchestrationRunning (fst (snd (doOrchestration w img v spec c))) = orchestrationRunning c"
  by (simp add: doOrchestration_def Let_def split: option.splits sum.splits)

lemma funpow_setOrchestrationNeeded:
  "orchestrationNeeded ((setOrchestrationNeeded ^^ n) c) = (0 < n \<or> orchestrationNeeded c) \<and>
   orchestrationRunning ((setOrchestrationNeeded ^^ n) c) = orchestrationRunning c"
  by (induction n) (auto simp: setOrchestrationNeeded_def)

termination createInstance_loop
proof (relation "measure (\<lambda>(ws, img, v, arr, c, err, ps).
          2 * length arr + (if orchestrationNeeded c \<and> \<not> orchestrationRunning c then 1 else 0))",
       goal_cases)
  case 1
  show ?case by simp
next
  case (2 ws img v arr c err passes c1 spec r c2 c3)
  then show ?case
    by (cases arr)
       (auto simp: checkSetOrchestrationStatus_def unsetOrchestrationStatus_def
          doOrchestration_flags funpow_setOrchestrationNeeded split: if_splits)
qed

definition createInstance ::
  "(nat \<Rightarrow> world) \<Rightarrow> string \<Rightarrow> CephVersion \<Rightarrow> nat list \<Rightarrow> cluster
     \<Rightarrow> error option \<times> cluster \<times> call list list" where
  "createInstance worlds rookImage cephVersion arrivals c =
     createInstance_loop worlds rookImage cephVersion arrivals (setOrchestrationNeeded c) None []"

subsection \<open>Several goroutines on one cluster\<close>

text \<open>
  Any number of goroutines run \<^verbatim>\<open>createInstance\<close> on the same cluster, and others
  request an orchestration or replace the specification. A goroutine is \<open>Idle\<close> outside
  \<^verbatim>\<open>createInstance\<close>, \<open>Checking\<close> at the head of the loop, \<open>Claimed\<close> after a check
  that returned true and \<open>Orchestrated\<close> once its pass is over and the release is due.
  The mutex makes each flag operation one step of the system; a pass runs with any
  collaborators, image and version.
\<close>

datatype pc = Idle | Checking | Claimed | Orchestrated

definition holding :: "pc \<Rightarrow> bool" where
  "holding p = (p = Claimed \<or> p = Orchestrated)"

inductive step :: "cluster \<times> (nat \<Rightarrow> pc) \<Rightarrow> cluster \<times> (nat \<Rightarrow> pc) \<Rightarrow> bool" where
  request: "step (c, p) (setOrchestrationNeeded c, p)"
| respec: "step (c, p) (c\<lparr>Spec := s\<rparr>, p)"
| enter: "p g = Idle \<Longrightarrow> step (c, p) (setOrchestrationNeeded c, p(g := Checking))"
| claim: "p g = Checking \<Longrightarrow> fst (checkSetOrchestrationStatus c) \<Longrightarrow>
          step (c, p) (snd (checkSetOrchestrationStatus c), p(g := Claimed))"
| leave: "p g = Checking \<Longrightarrow> \<not> fst (checkSetOrchestrationStatus c) \<Longrightarrow>
          step (c, p) (snd (checkSetOrchestrationStatus c), p(g := Idle))"
| pass: "p g = Claimed \<Longrightarrow>
         step (c, p)
           (fst (snd (doOrchestration w rookImage cephVersion (Spec c) c)), p(g := Orchestrated))"
| release: "p g = Orchestrated \<Longrightarrow>
            step (c, p) (unsetOrchestrationStatus c, p(g := Checking))"

inductive reachable :: "cluster \<times> (nat \<Rightarrow> pc) \<Rightarrow> bool" where
  start: "\<not> orchestrationNeeded c \<Longrightarrow> \<not> orchestrationRunning c \<Longrightarrow> reachable (c, \<lambda>g. Idle)"
| after: "reachable s \<Longrightarrow> step s s' \<Longrightarrow> reachable s'"

text \<open>
  An execution of the system is the list of what the goroutines did, in order. \<open>Enter\<close> is
  the call of \<^verbatim>\<open>setOrchestrationNeeded\<close> at the head of \<^verbatim>\<open>createInstance\<close>, the only
  call of it in \<^verbatim>\<open>cluster.go\<close>; \<open>Claim\<close> and \<open>Leave\<close> are a check that returned true
  and one that returned false, after which the loop returns; \<open>Pass\<close> is the pass of a
  goroutine that claimed, with the collaborators, image and version it runs with;
  \<open>Release\<close> is the call of \<^verbatim>\<open>unsetOrchestrationStatus\<close>. \<open>Request\<close> is a call of
  \<^verbatim>\<open>setOrchestrationNeeded\<close> from elsewhere that lands while a pass is running.
  \<open>perform\<close> is \<open>None\<close> where the goroutine is not at that point of its loop.
\<close>

datatype action =
    Request
  | Respec ClusterSpec
  | Enter nat
  | Claim nat
  | Leave nat
  | Pass nat world string CephVersion
  | Release nat

fun perform :: "action \<Rightarrow> cluster \<times> (nat \<Rightarrow> pc) \<Rightarrow> (cluster \<times> (nat \<Rightarrow> pc)) option" where
  "perform Request (c, p) =
     (if orchestrationRunning c then Some (setOrchestrationNeeded c, p) else None)"
| "perform (Respec s) (c, p) = Some (c\<lparr>Spec := s\<rparr>, p)"
| "perform (Enter g) (c, p) =
     (if p g = Idle then Some (setOrchestrationNeeded c, p(g := Checking)) else None)"
| "perform (Claim g) (c, p) =
     (if p g = Checking \<and> fst (checkSetOrchestrationStatus c)
      then Some (snd (checkSetOrchestrationStatus c), p(g := Claimed)) else None)"
| "perform (Leave g) (c, p) =
     (if p g = Checking \<and> \<not> fst (checkSetOrchestrationStatus c)
      then Some (snd (checkSetOrchestrationStatus c), p(g := Idle)) else None)"
| "perform (Pass g w rookImage cephVersion) (c, p) =
     (if p g = Claimed
      then Some (fst (snd (doOrchestration w rookImage cephVersion (Spec c) c)),
                 p(g := Orchestrated))
      else None)"
| "perform (Release g) (c, p) =
     (if p g = Orchestrated then Some (unsetOrchestrationStatus c, p(g := Checking)) else None)"

fun execute :: "action list \<Rightarrow> cluster \<times> (nat \<Rightarrow> pc) \<Rightarrow> (cluster \<times> (nat \<Rightarrow> pc)) option" where
  "execute [] s = Some s"
| "execute (a # as) s = (case perform a s of None \<Rightarrow> None | Some s' \<Rightarrow> execute as s')"






subsection \<open>Comparing two specifications\<close>

text \<open>
  \<^verbatim>\<open>sort.Sort(rookv1alpha2.NodesByName(...))\<close> orders a slice by the field \<open>Name\<close>,
  under Go's order on strings (byte by byte). On a nil slice it does nothing.
  \<open>sort_key\<close> is the insertion sort, which keeps nodes of one name in their order, as
  Go's does on a short slice; \<^verbatim>\<open>sort.Sort\<close> promises no such order on a long one,
  and where the names are distinct there is only one sorted list. The two
  specifications arrive by value, but a slice shares its backing array with the
  caller's: \<open>clusterChanged\<close> returns, after its two results, the old and the new
  specification as the callers see them once it is over (the two slices have backing
  arrays of their own, or one and the same). \<^verbatim>\<open>reflect.DeepEqual\<close>
  is equality of the two values, a nil slice differing from an empty one. The third
  parameter of the source is not used.
\<close>

definition sortNodesByName :: "ClusterSpec \<Rightarrow> ClusterSpec" where
  "sortNodesByName s =
     s\<lparr>Storage := (Storage s)\<lparr>Nodes := map_option (sort_key Name) (Nodes (Storage s))\<rparr>\<rparr>"

definition clusterChanged ::
  "world \<Rightarrow> ClusterSpec \<Rightarrow> ClusterSpec \<Rightarrow> cluster \<Rightarrow> (bool \<times> string) \<times> ClusterSpec \<times> ClusterSpec" where
  "clusterChanged w oldCluster newCluster clusterRef =
     (let oldCluster = sortNodesByName oldCluster;
          newCluster = sortNodesByName newCluster
      in if oldCluster \<noteq> newCluster
         then ((True, case CmpDiff w oldCluster newCluster of None \<Rightarrow> [] | Some diff \<Rightarrow> diff),
               oldCluster, newCluster)
         else ((False, []), oldCluster, newCluster))"

text \<open>The nodes of a specification as a list (a nil slice has none), and the
  specification without its node list: two specifications are equal except for their
  node lists when \<open>withoutNodes\<close> agrees on them.\<close>

definition nodesOf :: "ClusterSpec \<Rightarrow> Node list" where
  "nodesOf s = (case Nodes (Storage s) of None \<Rightarrow> [] | Some ns \<Rightarrow> ns)"

definition withoutNodes :: "ClusterSpec \<Rightarrow> ClusterSpec" where
  "withoutNodes s = s\<lparr>Storage := (Storage s)\<lparr>Nodes := None\<rparr>\<rparr>"

subsection \<open>A sample cluster\<close>

text \<open>A cluster in namespace \<open>rook-ceph\<close> whose identity is established, and
  collaborators that answer with the running versions \<open>overall\<close> and the health
  \<open>healthy\<close>; every start succeeds.\<close>

definition v14_2_1 :: CephVersion where
  "v14_2_1 = \<lparr>Major = 14, Minor = 2, Extra = 1, Build = 0\<rparr>"

definition v14_2_2 :: CephVersion where
  "v14_2_2 = \<lparr>Major = 14, Minor = 2, Extra = 2, Build = 0\<rparr>"

definition sampleExtract :: "string \<Rightarrow> error + CephVersion" where
  "sampleExtract s =
     (if s = ''14.2.1'' then Inr v14_2_1
      else if s = ''14.2.2'' then Inr v14_2_2
      else Inl (External ''failed to parse the version''))"

definition sampleInfo :: ClusterInfo where
  "sampleInfo = \<lparr>FSID = ''fsid'', AdminSecret = ''secret'', RunningVersion = v14_2_1\<rparr>"

definition sampleSpec :: "string \<Rightarrow> Node list option \<Rightarrow> ClusterSpec" where
  "sampleSpec dir nodes =
     \<lparr>CephVersion = \<lparr>Image = ''ceph/ceph:v14'', AllowUnsupported = False\<rparr>,
      Storage = \<lparr>Nodes = nodes, Selection = ''all''\<rparr>,
      Annotations = ''annotations'', Placement = ''placement'', Network = ''host'',
      Resources = ''resources'', DataDirHostPath = dir, Dashboard = ''on'',
      Monitoring = ''off'', RBDMirroring = ''1''\<rparr>"

definition nodeA :: "string \<Rightarrow> Node" where
  "nodeA cfg = \<lparr>Name = ''a'', NodeConfig = cfg\<rparr>"

definition nodeB :: "string \<Rightarrow> Node" where
  "nodeB cfg = \<lparr>Name = ''b'', NodeConfig = cfg\<rparr>"

definition plainSpec :: ClusterSpec where
  "plainSpec = sampleSpec ''/var/lib/rook'' None"

definition sampleCluster :: "ClusterSpec \<Rightarrow> cluster" where
  "sampleCluster spec =
     \<lparr>Info = Some sampleInfo, Namespace = ''rook-ceph'', Spec = spec, crdName = ''rook-ceph'',
      initCompleted = False, ownerRef = ''owner'', orchestrationRunning = False,
      orchestrationNeeded = False, childControllers = [''pools''], isUpgrade = False\<rparr>"

definition sampleWorld :: "(string \<times> int) list \<Rightarrow> bool \<Rightarrow> world" where
  "sampleWorld overall healthy =
     \<lparr>Minimum = \<lparr>Major = 13, Minor = 2, Extra = 4, Build = 0\<rparr>,
      Supported = (\<lambda>v. True),
      ExtractCephVersion = sampleExtract,
      IsInitialized = (\<lambda>i. i \<noteq> None),
      LoadClusterInfo = (\<lambda>ns. (Some sampleInfo, None)),
      WriteConnectionConfig = (\<lambda>i. None),
      GetAllCephDaemonVersions = (\<lambda>ns. Inr \<lparr>Overall = overall\<rparr>),
      IsCephHealthy = (\<lambda>ns. healthy),
      ConfigMapCreate = (\<lambda>ns owner. None),
      MonsStart = (\<lambda>info img v spec upgrade. Inr (Some sampleInfo)),
      RoleStart = (\<lambda>r. None),
      GetMgrPlacement = (\<lambda>x. x), GetMgrAnnotations = (\<lambda>x. x), GetMgrResources = (\<lambda>x. x),
      GetOSDPlacement = (\<lambda>x. x), GetOSDAnnotations = (\<lambda>x. x), GetOSDResources = (\<lambda>x. x),
      GetRBDMirrorPlacement = (\<lambda>x. x), GetRBDMirrorAnnotations = (\<lambda>x. x),
      GetRBDMirrorResources = (\<lambda>x. x),
      CmpDiff = (\<lambda>a b. Some ''diff'')\<rparr>"


section \<open>Properties\<close>

subsection \<open>The orchestration flags admit one pass at a time\<close>

text \<open>In every state that the goroutines can reach, a goroutine between a successful
  check and its release finds \<open>orchestrationRunning\<close> set, and it is the only one.\<close>

lemma reachable_exclusive:
  assumes "reachable s"
  shows "(\<forall>g. holding (snd s g) \<longrightarrow> orchestrationRunning (fst s)) \<and>
         (\<forall>g h. holding (snd s g) \<and> holding (snd s h) \<longrightarrow> g = h)"
  using assms
proof (induction rule: reachable.induct)
  case (start c)
  show ?case by (simp add: holding_def)
next
  case (after s s')
  from after.hyps(2) after.IH show ?case
  proof (cases rule: step.cases)
    case (request c p)
    with after.IH show ?thesis by (simp add: setOrchestrationNeeded_def)
  next
    case (respec c p sp)
    with after.IH show ?thesis by simp
  next
    case (enter p g c)
    with after.IH show ?thesis by (auto simp: setOrchestrationNeeded_def holding_def)
  next
    case (claim p g c)
    with after.IH show ?thesis
      by (auto simp: checkSetOrchestrationStatus_def holding_def split: if_splits)
  next
    case (leave p g c)
    with after.IH show ?thesis
      by (auto simp: checkSetOrchestrationStatus_def holding_def split: if_splits)
  next
    case (pass p g c)
    with after.IH show ?thesis
      by (auto simp: doOrchestration_flags holding_def split: if_splits)
  next
    case (release p g c)
    with after.IH show ?thesis
      by (auto simp: unsetOrchestrationStatus_def holding_def split: if_splits)
  qed
qed

text \<open>
  C2. \<^verbatim>\<open>checkSetOrchestrationStatus\<close> returns true exactly when an orchestration is
  needed and none is running; it then clears \<open>orchestrationNeeded\<close> and sets
  \<open>orchestrationRunning\<close>, and otherwise returns false and leaves the cluster as it was.
  Hence, in every reachable state of the goroutines that run \<^verbatim>\<open>createInstance\<close>, at
  most one of them is between a successful check and its release.
\<close>

theorem checkSetOrchestrationStatus_admits_one:
  "(fst (checkSetOrchestrationStatus c) \<longleftrightarrow> orchestrationNeeded c \<and> \<not> orchestrationRunning c) \<and>
   (fst (checkSetOrchestrationStatus c) \<longrightarrow>
      snd (checkSetOrchestrationStatus c) =
        c\<lparr>orchestrationNeeded := False, orchestrationRunning := True\<rparr>) \<and>
   (\<not> fst (checkSetOrchestrationStatus c) \<longrightarrow> snd (checkSetOrchestrationStatus c) = c) \<and>
   (reachable (c', p) \<longrightarrow> (\<forall>g h. holding (p g) \<and> holding (p h) \<longrightarrow> g = h))"
proof -
  have "reachable (c', p) \<Longrightarrow> (\<forall>g h. holding (p g) \<and> holding (p h) \<longrightarrow> g = h)"
    using reachable_exclusive [of "(c', p)"] by simp
  then show ?thesis by (auto simp: checkSetOrchestrationStatus_def)
qed

theorem checkSetOrchestrationStatus_admits_one_witness:
  "fst (checkSetOrchestrationStatus (setOrchestrationNeeded (sampleCluster plainSpec))) \<and>
   snd (checkSetOrchestrationStatus (setOrchestrationNeeded (sampleCluster plainSpec))) =
     (setOrchestrationNeeded (sampleCluster plainSpec))
       \<lparr>orchestrationNeeded := False, orchestrationRunning := True\<rparr> \<and>
   \<not> fst (checkSetOrchestrationStatus (sampleCluster plainSpec)) \<and>
   snd (checkSetOrchestrationStatus (sampleCluster plainSpec)) = sampleCluster plainSpec \<and>
   reachable
     (snd (checkSetOrchestrationStatus (setOrchestrationNeeded (sampleCluster plainSpec))),
      (\<lambda>g. Idle)(0 := Claimed)) \<and>
   holding (((\<lambda>g. Idle)(0 := Claimed)) (0::nat)) \<and>
   \<not> holding (((\<lambda>g. Idle)(0 := Claimed)) (1::nat))"
proof -
  let ?c = "sampleCluster plainSpec"
  let ?c1 = "setOrchestrationNeeded ?c"
  let ?c2 = "snd (checkSetOrchestrationStatus ?c1)"
  have r0: "reachable (?c, \<lambda>g. Idle)"
    by (rule reachable.start) (simp_all add: sampleCluster_def)
  have s1: "step (?c, \<lambda>g. Idle) (?c1, (\<lambda>g. Idle)(0 := Checking))"
    by (rule step.enter) simp
  have s2: "step (?c1, (\<lambda>g. Idle)(0 := Checking))
              (?c2, ((\<lambda>g. Idle)(0 := Checking))(0 := Claimed))"
    by (rule step.claim)
       (simp_all add: checkSetOrchestrationStatus_def setOrchestrationNeeded_def
          sampleCluster_def)
  have r2: "reachable (?c2, (\<lambda>g. Idle)(0 := Claimed))"
    using reachable.after [OF reachable.after [OF r0 s1] s2] by simp
  have needed: "orchestrationNeeded ?c1 \<and> \<not> orchestrationRunning ?c1"
    by (simp add: setOrchestrationNeeded_def sampleCluster_def)
  have idle: "\<not> orchestrationNeeded ?c"
    by (simp add: sampleCluster_def)
  note claimable = checkSetOrchestrationStatus_admits_one
        [of ?c1 ?c2 "(\<lambda>g. Idle)(0 := Claimed)"]
  note refused = checkSetOrchestrationStatus_admits_one
        [of ?c ?c2 "(\<lambda>g. Idle)(0 := Claimed)"]
  have a: "fst (checkSetOrchestrationStatus ?c1)"
    using conjunct1 [OF claimable] needed by blast
  have b: "?c2 = ?c1\<lparr>orchestrationNeeded := False, orchestrationRunning := True\<rparr>"
    by (rule mp [OF conjunct1 [OF conjunct2 [OF claimable]] a])
  have c: "\<not> fst (checkSetOrchestrationStatus ?c)"
    using conjunct1 [OF refused] idle by blast
  have d: "snd (checkSetOrchestrationStatus ?c) = ?c"
    by (rule mp [OF conjunct1 [OF conjunct2 [OF conjunct2 [OF refused]]] c])
  have e: "\<forall>g h. holding (((\<lambda>g. Idle)(0 := Claimed)) g) \<and>
                 holding (((\<lambda>g. Idle)(0 := Claimed)) h) \<longrightarrow> g = (h::nat)"
    by (rule mp [OF conjunct2 [OF conjunct2 [OF conjunct2 [OF claimable]]] r2])
  have f: "holding (((\<lambda>g. Idle)(0 := Claimed)) (0::nat))"
    by (simp add: holding_def)
  have g: "\<not> holding (((\<lambda>g. Idle)(0 := Claimed)) (1::nat))"
    using e [rule_format, of 0 1] f by auto
  show ?thesis
    by (intro conjI) (fact a, fact b, fact c, fact d, fact r2, fact f, fact g)
qed

subsection \<open>A loop that runs alone\<close>

lemma loop_idle:
  "\<not> orchestrationNeeded c \<or> orchestrationRunning c \<Longrightarrow>
   createInstance_loop w img v arr c err ps = (err, c, ps)"
  by (subst createInstance_loop.simps) (auto simp: checkSetOrchestrationStatus_def)

lemma loop_passes:
  "orchestrationNeeded c \<Longrightarrow> \<not> orchestrationRunning c \<Longrightarrow>
   length (snd (snd (createInstance_loop w img v arr c err ps))) =
     length ps + Suc (length (takeWhile (\<lambda>n. 0 < n) arr)) \<and>
   \<not> orchestrationNeeded (fst (snd (createInstance_loop w img v arr c err ps))) \<and>
   \<not> orchestrationRunning (fst (snd (createInstance_loop w img v arr c err ps)))"
proof (induction arr arbitrary: c err ps)
  case Nil
  define c1 where "c1 = snd (checkSetOrchestrationStatus c)"
  define r where "r = doOrchestration (w (length ps)) img v (Spec c1) c1"
  define c3 where "c3 = unsetOrchestrationStatus (fst (snd r))"
  have claimed: "fst (checkSetOrchestrationStatus c) = True"
    using Nil.prems by (simp add: checkSetOrchestrationStatus_def)
  have unfold: "createInstance_loop w img v [] c err ps =
                createInstance_loop w img v [] c3 (fst r) (ps @ [snd (snd r)])"
    by (subst createInstance_loop.simps) (simp add: claimed Let_def c1_def r_def c3_def)
  have flags: "\<not> orchestrationNeeded c3" "\<not> orchestrationRunning c3"
    using Nil.prems
    by (simp_all add: c3_def r_def c1_def unsetOrchestrationStatus_def
          doOrchestration_flags checkSetOrchestrationStatus_def)
  from flags have "createInstance_loop w img v [] c3 (fst r) (ps @ [snd (snd r)]) =
                   (fst r, c3, ps @ [snd (snd r)])"
    by (intro loop_idle) simp
  with flags unfold show ?case by simp
next
  case (Cons n arr)
  define c1 where "c1 = snd (checkSetOrchestrationStatus c)"
  define r where "r = doOrchestration (w (length ps)) img v (Spec c1) c1"
  define c3 where "c3 = unsetOrchestrationStatus ((setOrchestrationNeeded ^^ n) (fst (snd r)))"
  have claimed: "fst (checkSetOrchestrationStatus c) = True"
    using Cons.prems by (simp add: checkSetOrchestrationStatus_def)
  have unfold: "createInstance_loop w img v (n # arr) c err ps =
                createInstance_loop w img v arr c3 (fst r) (ps @ [snd (snd r)])"
    by (subst createInstance_loop.simps) (simp add: claimed Let_def c1_def r_def c3_def)
  have flags: "orchestrationNeeded c3 = (0 < n)" "\<not> orchestrationRunning c3"
    using Cons.prems
    by (simp_all add: c3_def r_def c1_def unsetOrchestrationStatus_def
          funpow_setOrchestrationNeeded doOrchestration_flags checkSetOrchestrationStatus_def)
  show ?case
  proof (cases "0 < n")
    case True
    with flags Cons.IH [of c3 "fst r" "ps @ [snd (snd r)]"] unfold show ?thesis by simp
  next
    case False
    with flags have "createInstance_loop w img v arr c3 (fst r) (ps @ [snd (snd r)]) =
                     (fst r, c3, ps @ [snd (snd r)])"
      by (intro loop_idle) simp
    with False flags unfold show ?thesis by simp
  qed
qed

lemma requests_coalesce:
  "0 < n \<Longrightarrow> (setOrchestrationNeeded ^^ n) c = setOrchestrationNeeded c"
proof (induction n)
  case 0
  then show ?case by simp
next
  case (Suc n)
  then show ?case by (cases n) (simp_all add: setOrchestrationNeeded_def)
qed

text \<open>
  A loop that runs alone. Started while no pass is running, and beside goroutines that
  call \<^verbatim>\<open>setOrchestrationNeeded\<close> and never claim, \<^verbatim>\<open>createInstance\<close> runs its
  first pass, and after each pass during which one request or more arrived it runs
  exactly one more pass, however many the requests were; it stops after the first pass
  during which none arrived. The number of passes is therefore one more than the number
  of leading passes with a request, and on return no request is pending and no pass is
  running. Any number of requests leaves the cluster as one request does.
\<close>

theorem createInstance_one_more_pass:
  assumes "\<not> orchestrationRunning c"
  shows "length (snd (snd (createInstance worlds rookImage cephVersion arrivals c))) =
           Suc (length (takeWhile (\<lambda>n. 0 < n) arrivals)) \<and>
         \<not> orchestrationNeeded (fst (snd (createInstance worlds rookImage cephVersion arrivals c))) \<and>
         \<not> orchestrationRunning (fst (snd (createInstance worlds rookImage cephVersion arrivals c))) \<and>
         (0 < n \<longrightarrow> (setOrchestrationNeeded ^^ n) c' = setOrchestrationNeeded c')"
  using assms
    loop_passes [of "setOrchestrationNeeded c" worlds rookImage cephVersion arrivals None "[]"]
  by (simp add: createInstance_def setOrchestrationNeeded_def requests_coalesce)

theorem createInstance_one_more_pass_witness:
  "\<not> orchestrationRunning (sampleCluster plainSpec) \<and>
   length (snd (snd (createInstance (\<lambda>k. sampleWorld [] True) ''rook/ceph'' v14_2_1 [3, 0, 5]
                       (sampleCluster plainSpec)))) = 2 \<and>
   \<not> orchestrationNeeded (fst (snd (createInstance (\<lambda>k. sampleWorld [] True) ''rook/ceph''
                                        v14_2_1 [3, 0, 5] (sampleCluster plainSpec)))) \<and>
   \<not> orchestrationRunning (fst (snd (createInstance (\<lambda>k. sampleWorld [] True) ''rook/ceph''
                                         v14_2_1 [3, 0, 5] (sampleCluster plainSpec)))) \<and>
   (setOrchestrationNeeded ^^ 3) (sampleCluster plainSpec) =
     setOrchestrationNeeded (sampleCluster plainSpec)"
proof -
  have idle: "\<not> orchestrationRunning (sampleCluster plainSpec)"
    by (simp add: sampleCluster_def)
  show ?thesis
    using idle createInstance_one_more_pass
      [OF idle, of "\<lambda>k. sampleWorld [] True" "''rook/ceph''" v14_2_1 "[3, 0, 5]" 3
         "sampleCluster plainSpec"]
    by simp
qed

subsection \<open>Requests during a pass bring one more pass\<close>

lemma perform_step: "perform a s = Some s' \<Longrightarrow> step s s'"
  by (cases a; cases s) (auto split: if_splits intro: step.intros)

lemma execute_reachable: "reachable s \<Longrightarrow> execute as s = Some s' \<Longrightarrow> reachable s'"
proof (induction as arbitrary: s)
  case Nil
  then show ?case by simp
next
  case (Cons a as)
  from Cons.prems(2) obtain s1 where a: "perform a s = Some s1" and rest: "execute as s1 = Some s'"
    by (auto split: option.splits)
  from Cons.prems(1) perform_step [OF a] have "reachable s1"
    by (rule reachable.after)
  from Cons.IH [OF this rest] show ?case .
qed












subsection \<open>The version gate\<close>

lemma IsInferior_IsSuperior: "IsInferior a b = IsSuperior b a"
  by (auto simp: IsInferior_def IsSuperior_def)

lemma IsSuperior_not_IsIdentical: "IsSuperior a b \<Longrightarrow> \<not> IsIdentical b a"
  by (auto simp: IsIdentical_def IsSuperior_def)

lemma diff_upgrade_needed:
  assumes "(\<exists>v n below. Overall running = [(v, n)] \<and> ExtractCephVersion w v = Inr below \<and>
              IsInferior below version) \<or> 1 < length (Overall running)"
  shows "diffImageSpecAndClusterRunningVersion w version running = (True, None)"
  using assms
  by (auto simp: diffImageSpecAndClusterRunningVersion_def Let_def IsInferior_IsSuperior
        IsSuperior_not_IsIdentical)

text \<open>
  C4. For an established identity and running versions for which the gate finds an
  upgrade needed (one running version strictly below the desired one, or more than one
  running version), \<^verbatim>\<open>validateCephVersion\<close> asks for the health of the cluster. When
  the cluster is not healthy it returns the not-healthy error and leaves the cluster as
  it was; when it is healthy it returns nil and sets \<open>isUpgrade\<close>. The desired version
  is one that passes the minimum and the supported checks, and the running versions
  are the ones fetched.
\<close>

theorem validateCephVersion_upgrade_checks_health:
  assumes "IsAtLeast version (Minimum w)"
      and "Supported w version \<or> AllowUnsupported (CephVersion (Spec c))"
      and "IsInitialized w (fst (LoadClusterInfo w (Namespace c)))"
      and "GetAllCephDaemonVersions w (Namespace c) = Inr running"
      and "(\<exists>v n below. Overall running = [(v, n)] \<and> ExtractCephVersion w v = Inr below \<and>
              IsInferior below version) \<or> 1 < length (Overall running)"
  shows "diffImageSpecAndClusterRunningVersion w version running = (True, None) \<and>
         CallIsCephHealthy (Namespace c) \<in> set (snd (snd (validateCephVersion w version c))) \<and>
         (if IsCephHealthy w (Namespace c)
          then fst (validateCephVersion w version c) = None \<and>
               fst (snd (validateCephVersion w version c)) = c\<lparr>isUpgrade := True\<rparr>
          else fst (validateCephVersion w version c) = Some (NotHealthy (Namespace c)) \<and>
               fst (snd (validateCephVersion w version c)) = c)"
  using assms(1,2,3,4) diff_upgrade_needed [OF assms(5)]
  by (auto simp: validateCephVersion_def Let_def split: prod.splits)

theorem validateCephVersion_upgrade_checks_health_witness:
  "IsAtLeast v14_2_2 (Minimum (sampleWorld [(''14.2.1'', 3)] False)) \<and>
   IsInitialized (sampleWorld [(''14.2.1'', 3)] False)
     (fst (LoadClusterInfo (sampleWorld [(''14.2.1'', 3)] False)
             (Namespace (sampleCluster plainSpec)))) \<and>
   IsInferior v14_2_1 v14_2_2 \<and>
   \<not> IsCephHealthy (sampleWorld [(''14.2.1'', 3)] False) (Namespace (sampleCluster plainSpec)) \<and>
   fst (validateCephVersion (sampleWorld [(''14.2.1'', 3)] False) v14_2_2
          (sampleCluster plainSpec)) = Some (NotHealthy (Namespace (sampleCluster plainSpec))) \<and>
   fst (snd (validateCephVersion (sampleWorld [(''14.2.1'', 3)] False) v14_2_2
               (sampleCluster plainSpec))) = sampleCluster plainSpec \<and>
   IsCephHealthy (sampleWorld [(''14.2.1'', 2), (''14.2.2'', 1)] True)
     (Namespace (sampleCluster plainSpec)) \<and>
   fst (validateCephVersion (sampleWorld [(''14.2.1'', 2), (''14.2.2'', 1)] True) v14_2_2
          (sampleCluster plainSpec)) = None \<and>
   fst (snd (validateCephVersion (sampleWorld [(''14.2.1'', 2), (''14.2.2'', 1)] True) v14_2_2
               (sampleCluster plainSpec))) = (sampleCluster plainSpec)\<lparr>isUpgrade := True\<rparr>"
proof -
  let ?U = "sampleWorld [(''14.2.1'', 3)] False"
  let ?H = "sampleWorld [(''14.2.1'', 2), (''14.2.2'', 1)] True"
  let ?c = "sampleCluster plainSpec"
  have u1: "IsAtLeast v14_2_2 (Minimum ?U)"
    by (simp add: IsAtLeast_def IsSuperior_def v14_2_2_def sampleWorld_def)
  have u2: "Supported ?U v14_2_2 \<or> AllowUnsupported (CephVersion (Spec ?c))"
    by (simp add: sampleWorld_def)
  have u3: "IsInitialized ?U (fst (LoadClusterInfo ?U (Namespace ?c)))"
    by (simp add: sampleWorld_def)
  have u4: "GetAllCephDaemonVersions ?U (Namespace ?c) = Inr \<lparr>Overall = [(''14.2.1'', 3)]\<rparr>"
    by (simp add: sampleWorld_def)
  have below: "IsInferior v14_2_1 v14_2_2"
    by (simp add: IsInferior_def v14_2_1_def v14_2_2_def)
  have u5: "(\<exists>v n below. Overall \<lparr>Overall = [(''14.2.1'', 3)]\<rparr> = [(v, n)] \<and>
               ExtractCephVersion ?U v = Inr below \<and> IsInferior below v14_2_2) \<or>
            1 < length (Overall \<lparr>Overall = [(''14.2.1'', 3)]\<rparr>)"
    using below by (simp add: sampleWorld_def sampleExtract_def)
  have unhealthy: "\<not> IsCephHealthy ?U (Namespace ?c)"
    by (simp add: sampleWorld_def)
  have h1: "IsAtLeast v14_2_2 (Minimum ?H)"
    by (simp add: IsAtLeast_def IsSuperior_def v14_2_2_def sampleWorld_def)
  have h2: "Supported ?H v14_2_2 \<or> AllowUnsupported (CephVersion (Spec ?c))"
    by (simp add: sampleWorld_def)
  have h3: "IsInitialized ?H (fst (LoadClusterInfo ?H (Namespace ?c)))"
    by (simp add: sampleWorld_def)
  have h4: "GetAllCephDaemonVersions ?H (Namespace ?c) =
              Inr \<lparr>Overall = [(''14.2.1'', 2), (''14.2.2'', 1)]\<rparr>"
    by (simp add: sampleWorld_def)
  have h5: "(\<exists>v n below. Overall \<lparr>Overall = [(''14.2.1'', 2), (''14.2.2'', 1)]\<rparr> = [(v, n)] \<and>
               ExtractCephVersion ?H v = Inr below \<and> IsInferior below v14_2_2) \<or>
            1 < length (Overall \<lparr>Overall = [(''14.2.1'', 2), (''14.2.2'', 1)]\<rparr>)"
    by simp
  have healthy: "IsCephHealthy ?H (Namespace ?c)"
    by (simp add: sampleWorld_def)
  show ?thesis
    using u1 u3 below unhealthy healthy
      validateCephVersion_upgrade_checks_health [OF u1 u2 u3 u4 u5]
      validateCephVersion_upgrade_checks_health [OF h1 h2 h3 h4 h5]
    by simp
qed

text \<open>
  C6, as the code has it. For an established identity, when the fetched running versions
  have no entry in their overall summary, \<^verbatim>\<open>diffImageSpecAndClusterRunningVersion\<close>
  returns the error of the missing overall section, and \<^verbatim>\<open>validateCephVersion\<close>
  does not hand it on: it returns nil, leaves the cluster as it was and does not ask
  for the health of the cluster. (The source proceeds "in best effort" when it cannot
  determine whether to upgrade.)
\<close>

theorem validateCephVersion_no_overall_proceeds:
  assumes "IsAtLeast version (Minimum w)"
      and "Supported w version \<or> AllowUnsupported (CephVersion (Spec c))"
      and "IsInitialized w (fst (LoadClusterInfo w (Namespace c)))"
      and "GetAllCephDaemonVersions w (Namespace c) = Inr running"
      and "Overall running = []"
  shows "diffImageSpecAndClusterRunningVersion w version running = (False, Some NoOverallSection) \<and>
         fst (validateCephVersion w version c) = None \<and>
         fst (snd (validateCephVersion w version c)) = c \<and>
         CallIsCephHealthy (Namespace c) \<notin> set (snd (snd (validateCephVersion w version c)))"
  using assms
  by (auto simp: validateCephVersion_def diffImageSpecAndClusterRunningVersion_def Let_def
        split: prod.splits)

theorem validateCephVersion_no_overall_proceeds_witness:
  "IsAtLeast v14_2_1 (Minimum (sampleWorld [] True)) \<and>
   IsInitialized (sampleWorld [] True)
     (fst (LoadClusterInfo (sampleWorld [] True) (Namespace (sampleCluster plainSpec)))) \<and>
   GetAllCephDaemonVersions (sampleWorld [] True) (Namespace (sampleCluster plainSpec)) =
     Inr \<lparr>Overall = []\<rparr> \<and>
   diffImageSpecAndClusterRunningVersion (sampleWorld [] True) v14_2_1 \<lparr>Overall = []\<rparr> =
     (False, Some NoOverallSection) \<and>
   fst (snd (validateCephVersion (sampleWorld [] True) v14_2_1 (sampleCluster plainSpec))) =
     sampleCluster plainSpec \<and>
   CallIsCephHealthy (Namespace (sampleCluster plainSpec)) \<notin>
     set (snd (snd (validateCephVersion (sampleWorld [] True) v14_2_1 (sampleCluster plainSpec))))"
proof -
  let ?W = "sampleWorld [] True"
  let ?c = "sampleCluster plainSpec"
  have a1: "IsAtLeast v14_2_1 (Minimum ?W)"
    by (simp add: IsAtLeast_def IsSuperior_def v14_2_1_def sampleWorld_def)
  have a2: "Supported ?W v14_2_1 \<or> AllowUnsupported (CephVersion (Spec ?c))"
    by (simp add: sampleWorld_def)
  have a3: "IsInitialized ?W (fst (LoadClusterInfo ?W (Namespace ?c)))"
    by (simp add: sampleWorld_def)
  have a4: "GetAllCephDaemonVersions ?W (Namespace ?c) = Inr \<lparr>Overall = []\<rparr>"
    by (simp add: sampleWorld_def)
  have a5: "Overall \<lparr>Overall = []\<rparr> = []"
    by simp
  show ?thesis
    using a1 a3 a4 validateCephVersion_no_overall_proceeds [OF a1 a2 a3 a4 a5]
    by simp
qed

text \<open>The claim C6 as it is written fails: with an established identity and no entry
  in the overall summary, \<^verbatim>\<open>validateCephVersion\<close> returns nil.\<close>

theorem validateCephVersion_no_overall_counterexample:
  "IsInitialized (sampleWorld [] True)
     (fst (LoadClusterInfo (sampleWorld [] True) (Namespace (sampleCluster plainSpec)))) \<and>
   GetAllCephDaemonVersions (sampleWorld [] True) (Namespace (sampleCluster plainSpec)) =
     Inr \<lparr>Overall = []\<rparr> \<and>
   length (Overall \<lparr>Overall = []\<rparr>) = 0 \<and>
   fst (validateCephVersion (sampleWorld [] True) v14_2_1 (sampleCluster plainSpec)) = None"
  by (simp add: validateCephVersion_def Let_def
        diffImageSpecAndClusterRunningVersion_def sampleWorld_def sampleCluster_def
        plainSpec_def sampleSpec_def v14_2_1_def IsAtLeast_def IsSuperior_def IsIdentical_def)

text \<open>The health of the cluster is asked for only after the running versions were
  fetched and the comparison found an upgrade needed, without error.\<close>

lemma validateCephVersion_calls:
  "CallIsCephHealthy ns \<in> set (snd (snd (validateCephVersion w version c))) \<Longrightarrow>
   \<exists>running. GetAllCephDaemonVersions w (Namespace c) = Inr running \<and>
     diffImageSpecAndClusterRunningVersion w version running = (True, None)"
  by (auto simp: validateCephVersion_def Let_def
        split: if_splits prod.splits sum.splits option.splits)

text \<open>
  C7. When the running versions have exactly one entry and its version is identical to
  the desired one, \<^verbatim>\<open>diffImageSpecAndClusterRunningVersion\<close> returns false and no
  error, and \<^verbatim>\<open>validateCephVersion\<close>, having fetched these running versions, never
  asks for the health of the cluster and leaves \<open>isUpgrade\<close> as it was.
\<close>

theorem identical_version_no_health_check:
  assumes "Overall running = [(v, n)]"
      and "ExtractCephVersion w v = Inr clusterRunningVersion"
      and "IsIdentical clusterRunningVersion version"
      and "GetAllCephDaemonVersions w (Namespace c) = Inr running"
  shows "diffImageSpecAndClusterRunningVersion w version running = (False, None) \<and>
         (\<forall>ns. CallIsCephHealthy ns \<notin> set (snd (snd (validateCephVersion w version c)))) \<and>
         isUpgrade (fst (snd (validateCephVersion w version c))) = isUpgrade c"
proof -
  have d: "diffImageSpecAndClusterRunningVersion w version running = (False, None)"
    using assms(1,2,3) by (simp add: diffImageSpecAndClusterRunningVersion_def)
  have "CallIsCephHealthy ns \<notin> set (snd (snd (validateCephVersion w version c)))" for ns
    using validateCephVersion_calls [of ns w version c] assms(4) d by auto
  moreover have "isUpgrade (fst (snd (validateCephVersion w version c))) = isUpgrade c"
    using assms(4) d
    by (auto simp: validateCephVersion_def Let_def
          split: if_splits prod.splits)
  ultimately show ?thesis using d by simp
qed

theorem identical_version_no_health_check_witness:
  "ExtractCephVersion (sampleWorld [(''14.2.1'', 3)] False) ''14.2.1'' = Inr v14_2_1 \<and>
   IsIdentical v14_2_1 v14_2_1 \<and>
   GetAllCephDaemonVersions (sampleWorld [(''14.2.1'', 3)] False)
     (Namespace (sampleCluster plainSpec)) = Inr \<lparr>Overall = [(''14.2.1'', 3)]\<rparr> \<and>
   diffImageSpecAndClusterRunningVersion (sampleWorld [(''14.2.1'', 3)] False) v14_2_1
     \<lparr>Overall = [(''14.2.1'', 3)]\<rparr> = (False, None) \<and>
   CallIsCephHealthy ''rook-ceph'' \<notin>
     set (snd (snd (validateCephVersion (sampleWorld [(''14.2.1'', 3)] False) v14_2_1
                      (sampleCluster plainSpec))))"
proof -
  let ?W = "sampleWorld [(''14.2.1'', 3)] False"
  let ?c = "sampleCluster plainSpec"
  have a1: "Overall \<lparr>Overall = [(''14.2.1'', 3::int)]\<rparr> = [(''14.2.1'', 3)]"
    by simp
  have a2: "ExtractCephVersion ?W ''14.2.1'' = Inr v14_2_1"
    by (simp add: sampleWorld_def sampleExtract_def)
  have a3: "IsIdentical v14_2_1 v14_2_1"
    by (simp add: IsIdentical_def)
  have a4: "GetAllCephDaemonVersions ?W (Namespace ?c) = Inr \<lparr>Overall = [(''14.2.1'', 3)]\<rparr>"
    by (simp add: sampleWorld_def)
  show ?thesis
    using a2 a3 a4 identical_version_no_health_check [OF a1 a2 a3 a4]
    by simp
qed

text \<open>
  C3. One running version is strictly above the desired one:
  \<^verbatim>\<open>diffImageSpecAndClusterRunningVersion\<close> returns the error that downgrading is not
  supported, and \<^verbatim>\<open>validateCephVersion\<close> returns nil all the same, so that the pass
  goes on with the lower version. Here the cluster runs 14.2.2 and the image is 14.2.1.
\<close>

theorem validateCephVersion_accepts_downgrade:
  "diffImageSpecAndClusterRunningVersion (sampleWorld [(''14.2.2'', 3)] True) v14_2_1
       \<lparr>Overall = [(''14.2.2'', 3)]\<rparr> =
     (True, Some (DowngradeNotSupported v14_2_1 v14_2_2)) \<and>
   IsInferior v14_2_1 v14_2_2 \<and>
   validateCephVersion (sampleWorld [(''14.2.2'', 3)] True) v14_2_1 (sampleCluster plainSpec) =
     (None, sampleCluster plainSpec,
      [CallLoadClusterInfo ''rook-ceph'', CallWriteConnectionConfig (Some sampleInfo),
       CallGetAllCephDaemonVersions ''rook-ceph''])"
  by (simp add: validateCephVersion_def Let_def
        diffImageSpecAndClusterRunningVersion_def sampleWorld_def sampleExtract_def
        sampleCluster_def plainSpec_def sampleSpec_def v14_2_1_def v14_2_2_def IsAtLeast_def
        IsSuperior_def IsInferior_def IsIdentical_def)

subsection \<open>One pass\<close>

text \<open>
  C8. When the start of the mons returns an error, \<^verbatim>\<open>doOrchestration\<close> returns the
  failure at once: the cluster is as it was (\<open>initCompleted\<close> is not set, \<open>Info\<close> is not
  replaced), and the only calls made are the creation of the override config map and
  the start of the mons; neither the manager, the OSDs nor the mirroring daemons are
  started and no child is told of a change.
\<close>

theorem doOrchestration_mon_failure_aborts:
  assumes "case ConfigMapCreate w (Namespace c) (ownerRef c) of
             None \<Rightarrow> True | Some err \<Rightarrow> IsAlreadyExists err"
      and "MonsStart w (Info c) rookImage cephVersion (Spec c) (isUpgrade c) = Inl err"
  shows "doOrchestration w rookImage cephVersion spec c =
           (Some (MonStartFailed err), c,
            [CallConfigMapCreate (Namespace c) (ownerRef c),
             CallMonsStart (Info c) rookImage cephVersion (Spec c) (isUpgrade c)])"
  using assms by (auto simp: doOrchestration_def Let_def split: option.splits)

theorem doOrchestration_mon_failure_aborts_witness:
  "MonsStart ((sampleWorld [] True)\<lparr>MonsStart := \<lambda>info img v spec up. Inl (External ''no quorum'')\<rparr>)
     (Info (sampleCluster plainSpec)) ''rook/ceph'' v14_2_1 (Spec (sampleCluster plainSpec))
     (isUpgrade (sampleCluster plainSpec)) = Inl (External ''no quorum'') \<and>
   doOrchestration
     ((sampleWorld [] True)\<lparr>MonsStart := \<lambda>info img v spec up. Inl (External ''no quorum'')\<rparr>)
     ''rook/ceph'' v14_2_1 plainSpec (sampleCluster plainSpec) =
     (Some (MonStartFailed (External ''no quorum'')), sampleCluster plainSpec,
      [CallConfigMapCreate (Namespace (sampleCluster plainSpec)) (ownerRef (sampleCluster plainSpec)),
       CallMonsStart (Info (sampleCluster plainSpec)) ''rook/ceph'' v14_2_1
         (Spec (sampleCluster plainSpec)) (isUpgrade (sampleCluster plainSpec))])"
proof -
  let ?W = "(sampleWorld [] True)\<lparr>MonsStart := \<lambda>info img v spec up. Inl (External ''no quorum'')\<rparr>"
  let ?c = "sampleCluster plainSpec"
  have a1: "case ConfigMapCreate ?W (Namespace ?c) (ownerRef ?c) of
              None \<Rightarrow> True | Some err \<Rightarrow> IsAlreadyExists err"
    by (simp add: sampleWorld_def)
  have a2: "MonsStart ?W (Info ?c) ''rook/ceph'' v14_2_1 (Spec ?c) (isUpgrade ?c) =
              Inl (External ''no quorum'')"
    by simp
  show ?thesis
    by (intro conjI) (fact a2, fact doOrchestration_mon_failure_aborts [OF a1 a2])
qed

text \<open>
  C5. A pass that received the copy \<open>plainSpec\<close> while \<^verbatim>\<open>c.Spec\<close> leads to a
  specification with another data directory: the start of the mons and the children
  receive the live specification, the manager and the mirroring daemons its data
  directory, and only the OSDs the directory of the copy. Two passes with the same copy
  thus start different configurations.
\<close>

theorem doOrchestration_applies_live_spec:
  "snd (snd (doOrchestration (sampleWorld [] True) ''rook/ceph'' v14_2_1 plainSpec
               (sampleCluster (sampleSpec ''/mnt/other'' None)))) =
     [CallConfigMapCreate ''rook-ceph'' ''owner'',
      CallMonsStart (Some sampleInfo) ''rook/ceph'' v14_2_1 (sampleSpec ''/mnt/other'' None) False,
      CallStart (MgrNew (Some sampleInfo) ''rook-ceph'' ''rook/ceph'' (CephVersion plainSpec)
                   ''placement'' ''annotations'' ''host'' ''on'' ''off'' ''resources'' ''owner''
                   ''/mnt/other'' False),
      CallStart (OsdNew (Some sampleInfo) ''rook-ceph'' ''rook/ceph'' (CephVersion plainSpec)
                   (Storage plainSpec) ''/var/lib/rook'' ''placement'' ''annotations'' ''host''
                   ''resources'' ''owner'' False),
      CallStart (RbdNew (Some sampleInfo) ''rook-ceph'' ''rook/ceph'' (CephVersion plainSpec)
                   ''placement'' ''annotations'' ''host'' ''1'' ''resources'' ''owner''
                   ''/mnt/other'' False),
      CallParentClusterChanged ''pools'' (sampleSpec ''/mnt/other'' None) (Some sampleInfo) False] \<and>
   snd (snd (doOrchestration (sampleWorld [] True) ''rook/ceph'' v14_2_1 plainSpec
               (sampleCluster plainSpec))) \<noteq>
   snd (snd (doOrchestration (sampleWorld [] True) ''rook/ceph'' v14_2_1 plainSpec
               (sampleCluster (sampleSpec ''/mnt/other'' None))))"
  by (simp add: doOrchestration_def Let_def sampleWorld_def sampleCluster_def
        plainSpec_def sampleSpec_def)

subsection \<open>Comparing two specifications\<close>

lemma sort_key_perm_distinct:
  assumes "mset xs = mset ys" and "distinct (map f xs)"
  shows "sort_key f xs = sort_key f ys"
  using assms distinct_map sort_key_eq_sort_key by blast

lemma nodesOf_sortNodesByName: "nodesOf (sortNodesByName s) = sort_key Name (nodesOf s)"
  by (simp add: nodesOf_def sortNodesByName_def split: option.splits)

lemma withoutNodes_sortNodesByName: "withoutNodes (sortNodesByName s) = withoutNodes s"
  by (simp add: withoutNodes_def sortNodesByName_def)

lemma spec_eqI:
  "withoutNodes a = withoutNodes b \<Longrightarrow> Nodes (Storage a) = Nodes (Storage b) \<Longrightarrow> a = b"
  by (cases a, cases b, cases "Storage a", cases "Storage b") (auto simp: withoutNodes_def)

text \<open>The claim C9 as it is written fails twice: two nodes of the same name keep
  their order, so that a list and its reverse still differ after sorting; and a nil
  slice differs from an empty one.\<close>

theorem clusterChanged_reordering_counterexample:
  "withoutNodes (sampleSpec ''/var/lib/rook'' (Some [nodeA ''x'', nodeA ''y''])) =
     withoutNodes (sampleSpec ''/var/lib/rook'' (Some [nodeA ''y'', nodeA ''x''])) \<and>
   mset (nodesOf (sampleSpec ''/var/lib/rook'' (Some [nodeA ''x'', nodeA ''y'']))) =
     mset (nodesOf (sampleSpec ''/var/lib/rook'' (Some [nodeA ''y'', nodeA ''x'']))) \<and>
   fst (fst (clusterChanged (sampleWorld [] True)
               (sampleSpec ''/var/lib/rook'' (Some [nodeA ''x'', nodeA ''y'']))
               (sampleSpec ''/var/lib/rook'' (Some [nodeA ''y'', nodeA ''x'']))
               (sampleCluster plainSpec))) = True \<and>
   withoutNodes (sampleSpec ''/var/lib/rook'' None) =
     withoutNodes (sampleSpec ''/var/lib/rook'' (Some [])) \<and>
   mset (nodesOf (sampleSpec ''/var/lib/rook'' None)) =
     mset (nodesOf (sampleSpec ''/var/lib/rook'' (Some []))) \<and>
   fst (fst (clusterChanged (sampleWorld [] True)
               (sampleSpec ''/var/lib/rook'' None)
               (sampleSpec ''/var/lib/rook'' (Some []))
               (sampleCluster plainSpec))) = True"
  by (simp add: clusterChanged_def Let_def sortNodesByName_def sampleSpec_def withoutNodes_def
        nodesOf_def nodeA_def)

text \<open>
  C9, as the code has it. For two specifications that are equal except for their node
  lists, whose node lists are permutations of each other, in which no two nodes have
  the same name and which are both nil or both not nil, \<^verbatim>\<open>clusterChanged\<close> reports no
  change (and an empty diff).
\<close>

theorem clusterChanged_ignores_node_order:
  assumes "withoutNodes oldCluster = withoutNodes newCluster"
      and "mset (nodesOf oldCluster) = mset (nodesOf newCluster)"
      and "distinct (map Name (nodesOf oldCluster))"
      and "Nodes (Storage oldCluster) = None \<longleftrightarrow> Nodes (Storage newCluster) = None"
  shows "fst (clusterChanged w oldCluster newCluster clusterRef) = (False, [])"
proof -
  have "nodesOf (sortNodesByName oldCluster) = nodesOf (sortNodesByName newCluster)"
    using sort_key_perm_distinct [OF assms(2,3)] by (simp add: nodesOf_sortNodesByName)
  with assms(4) have "Nodes (Storage (sortNodesByName oldCluster)) =
                      Nodes (Storage (sortNodesByName newCluster))"
    by (auto simp: nodesOf_def sortNodesByName_def split: option.splits)
  moreover have "withoutNodes (sortNodesByName oldCluster) =
                 withoutNodes (sortNodesByName newCluster)"
    using assms(1) by (simp add: withoutNodes_sortNodesByName)
  ultimately have "sortNodesByName oldCluster = sortNodesByName newCluster"
    by (rule spec_eqI [rotated])
  then show ?thesis by (simp add: clusterChanged_def Let_def)
qed

theorem clusterChanged_ignores_node_order_witness:
  "withoutNodes (sampleSpec ''/var/lib/rook'' (Some [nodeB ''x'', nodeA ''y''])) =
     withoutNodes (sampleSpec ''/var/lib/rook'' (Some [nodeA ''y'', nodeB ''x''])) \<and>
   mset (nodesOf (sampleSpec ''/var/lib/rook'' (Some [nodeB ''x'', nodeA ''y'']))) =
     mset (nodesOf (sampleSpec ''/var/lib/rook'' (Some [nodeA ''y'', nodeB ''x'']))) \<and>
   distinct (map Name (nodesOf (sampleSpec ''/var/lib/rook'' (Some [nodeB ''x'', nodeA ''y''])))) \<and>
   fst (clusterChanged (sampleWorld [] True)
          (sampleSpec ''/var/lib/rook'' (Some [nodeB ''x'', nodeA ''y'']))
          (sampleSpec ''/var/lib/rook'' (Some [nodeA ''y'', nodeB ''x'']))
          (sampleCluster plainSpec)) = (False, [])"
proof -
  let ?old = "sampleSpec ''/var/lib/rook'' (Some [nodeB ''x'', nodeA ''y''])"
  let ?new = "sampleSpec ''/var/lib/rook'' (Some [nodeA ''y'', nodeB ''x''])"
  have a: "withoutNodes ?old = withoutNodes ?new"
    by (simp add: withoutNodes_def sampleSpec_def)
  have b: "mset (nodesOf ?old) = mset (nodesOf ?new)"
    by (simp add: nodesOf_def sampleSpec_def)
  have c: "distinct (map Name (nodesOf ?old))"
    by (simp add: nodesOf_def sampleSpec_def nodeA_def nodeB_def)
  have d: "Nodes (Storage ?old) = None \<longleftrightarrow> Nodes (Storage ?new) = None"
    by (simp add: sampleSpec_def)
  show ?thesis
    using a b c
      clusterChanged_ignores_node_order
        [OF a b c d, of "sampleWorld [] True" "sampleCluster plainSpec"]
    by (intro conjI)
qed

text \<open>
  C10. \<^verbatim>\<open>clusterChanged\<close> is not free of side effects: after every call, whether a
  change is reported or not, the node lists of the old and of the new specification
  are, for the callers, ordered by name; they hold the nodes they held, and nothing
  else of the specifications is touched. On the sample, two equal specifications with
  nodes b, a are reported unchanged and both left with nodes a, b.
\<close>

theorem clusterChanged_sorts_callers_nodes:
  "sorted (map Name (nodesOf (fst (snd (clusterChanged w oldCluster newCluster clusterRef))))) \<and>
   sorted (map Name (nodesOf (snd (snd (clusterChanged w oldCluster newCluster clusterRef))))) \<and>
   mset (nodesOf (fst (snd (clusterChanged w oldCluster newCluster clusterRef)))) =
     mset (nodesOf oldCluster) \<and>
   mset (nodesOf (snd (snd (clusterChanged w oldCluster newCluster clusterRef)))) =
     mset (nodesOf newCluster) \<and>
   withoutNodes (fst (snd (clusterChanged w oldCluster newCluster clusterRef))) =
     withoutNodes oldCluster \<and>
   withoutNodes (snd (snd (clusterChanged w oldCluster newCluster clusterRef))) =
     withoutNodes newCluster \<and>
   clusterChanged (sampleWorld [] True)
       (sampleSpec ''/var/lib/rook'' (Some [nodeB ''x'', nodeA ''y'']))
       (sampleSpec ''/var/lib/rook'' (Some [nodeB ''x'', nodeA ''y'']))
       (sampleCluster plainSpec) =
     ((False, []),
      sampleSpec ''/var/lib/rook'' (Some [nodeA ''y'', nodeB ''x'']),
      sampleSpec ''/var/lib/rook'' (Some [nodeA ''y'', nodeB ''x'']))"
proof -
  have general: "snd (clusterChanged w oldCluster newCluster clusterRef) =
                 (sortNodesByName oldCluster, sortNodesByName newCluster)"
    by (simp add: clusterChanged_def Let_def)
  have sample: "clusterChanged (sampleWorld [] True)
       (sampleSpec ''/var/lib/rook'' (Some [nodeB ''x'', nodeA ''y'']))
       (sampleSpec ''/var/lib/rook'' (Some [nodeB ''x'', nodeA ''y'']))
       (sampleCluster plainSpec) =
     ((False, []),
      sampleSpec ''/var/lib/rook'' (Some [nodeA ''y'', nodeB ''x'']),
      sampleSpec ''/var/lib/rook'' (Some [nodeA ''y'', nodeB ''x'']))"
    by (simp add: clusterChanged_def Let_def sortNodesByName_def sampleSpec_def nodeA_def nodeB_def)
  show ?thesis
    using sample
    by (simp add: general nodesOf_sortNodesByName withoutNodes_sortNodesByName)
qed

end
